theory Spec2Isabelle
  imports Main
begin

section \<open>Data model of \<open>Chess.py\<close>\<close>

text \<open>
  The program tells pieces apart by the identity of thirteen image objects: six white
  piece images (\<open>white_piece_refs\<close>, keys k, q, r, b, n, p), six black ones and the blank
  image. An image is modelled by the value that identifies it.
\<close>

datatype color = White | Black

datatype kind = King | Queen | Rook | Bishop | Knight | Pawn

datatype image = Blank | Img color kind

text \<open>The two exceptions the engine can raise: a dictionary lookup at a key that is not a
  square of the board, and subscripting \<open>None\<close> (the result of \<open>find_king\<close> when no king
  is found).\<close>

datatype error = KeyError | TypeError

text \<open>
  A square name such as \<open>"e2"\<close> is only ever read through \<open>self.ranks.find(sq[0])\<close> (the
  file index, 0 to 7) and \<open>int(sq[1])\<close> (the rank, 1 to 8); a square is modelled as that
  pair. A button is identified with the square whose button it is (\<open>self.squares\<close> is a
  bijection between the two).
\<close>

type_synonym square = "int \<times> int"

definition on_board :: "square \<Rightarrow> bool" where
  "on_board sq = (0 \<le> fst sq \<and> fst sq < 8 \<and> 1 \<le> snd sq \<and> snd sq \<le> 8)"

text \<open>The keys of \<open>self.squares\<close> in insertion order (\<open>set_squares\<close>): a1, b1, ..., h1, a2, ...,
  h8. Every \<open>for sq in self.squares\<close> loop walks this list.\<close>

definition all_squares :: "square list" where
  "all_squares = concat (map (\<lambda>x. map (\<lambda>y. (y, x + 1)) [0, 1, 2, 3, 4, 5, 6, 7])
                              [0, 1, 2, 3, 4, 5, 6, 7])"

definition white_pieces :: "image list" where
  "white_pieces = map (Img White) [King, Queen, Rook, Bishop, Knight, Pawn]"

definition black_pieces :: "image list" where
  "black_pieces = map (Img Black) [King, Queen, Rook, Bishop, Knight, Pawn]"

text \<open>
  The fields of \<open>Board\<close> that the engine reads or writes. \<open>squares\<close> gives the image of the
  button of each square. \<open>promo_windows\<close> lists the promotion windows that are open, each
  with the colour it was opened for. Widget colours, the window title and the list box
  are display only and are left out. \<open>sq1\<close>, \<open>sq1_button\<close>, \<open>sq2\<close>, \<open>sq2_button\<close> do not
  exist before their first assignment; no path reads them before that.
\<close>

record board =
  squares :: "square \<Rightarrow> image"
  buttons_pressed :: int
  turns :: int
  wk_moved :: bool
  bk_moved :: bool
  wr1_moved :: bool
  wr2_moved :: bool
  br1_moved :: bool
  br2_moved :: bool
  castled :: bool
  move_history :: "(square \<times> square \<times> string) list"
  highlighted_squares :: "square list"
  piece_color :: "color option"
  sq1 :: square
  sq1_button :: square
  sq2 :: square
  sq2_button :: square
  promo_windows :: "color option list"

section \<open>Starting position\<close>

definition back_rank :: "int \<Rightarrow> kind" where
  "back_rank y = (if y = 0 \<or> y = 7 then Rook else if y = 1 \<or> y = 6 then Knight
                  else if y = 2 \<or> y = 5 then Bishop else if y = 3 then Queen else King)"

definition set_pieces :: "square \<Rightarrow> image" where
  "set_pieces sq = (if snd sq = 1 then Img White (back_rank (fst sq))
                    else if snd sq = 2 then Img White Pawn
                    else if snd sq = 7 then Img Black Pawn
                    else if snd sq = 8 then Img Black (back_rank (fst sq))
                    else Blank)"

definition init_board :: board where
  "init_board = \<lparr>squares = set_pieces, buttons_pressed = 0, turns = 0,
     wk_moved = False, bk_moved = False, wr1_moved = False, wr2_moved = False,
     br1_moved = False, br2_moved = False, castled = False, move_history = [],
     highlighted_squares = [], piece_color = None,
     sq1 = (0, 1), sq1_button = (0, 1), sq2 = (0, 1), sq2_button = (0, 1),
     promo_windows = []\<rparr>"

definition restart_game :: "board \<Rightarrow> board" where
  "restart_game s = s\<lparr>squares := set_pieces, buttons_pressed := 0, turns := 0,
     wk_moved := False, bk_moved := False, wr1_moved := False, wr2_moved := False,
     br1_moved := False, br2_moved := False, castled := False, move_history := []\<rparr>"

section \<open>Move legality\<close>

definition friendly_fire :: "board \<Rightarrow> bool" where
  "friendly_fire s =
     (let piece_2_color = squares s (sq2_button s) in
      if piece_color s = Some White \<and> piece_2_color \<in> set white_pieces then True
      else if piece_color s = Some Black \<and> piece_2_color \<in> set black_pieces then True
      else False)"

text \<open>
  One \<open>for\<close> loop of \<open>clear_path\<close>: it looks up the square of each step in turn and returns
  \<open>False\<close> at the first one that is not blank. A step whose key is not on the board raises
  \<open>KeyError\<close>. \<open>Inr True\<close> means the loop ran to its end.
\<close>

fun blank_path :: "(square \<Rightarrow> image) \<Rightarrow> square list \<Rightarrow> error + bool" where
  "blank_path sqs [] = Inr True"
| "blank_path sqs (k # ks) =
     (if \<not> on_board k then Inl KeyError
      else if sqs k \<noteq> Blank then Inr False
      else blank_path sqs ks)"

text \<open>
  \<open>clear_path(piece)\<close> with \<open>piece\<close> one of "rook", "bishop", "queen". The diagonal part
  walks one square per file strictly between the two files and moves one rank per step,
  whether or not the two squares are on one diagonal.
\<close>

definition clear_path :: "board \<Rightarrow> kind \<Rightarrow> error + bool" where
  "clear_path s piece =
     (let x1 = fst (sq1 s); y1 = snd (sq1 s); x2 = fst (sq2 s); y2 = snd (sq2 s);
          straight =
            (if piece = Rook \<or> piece = Queen then
               (if x1 = x2 then
                  blank_path (squares s) (map (\<lambda>i. (x1, i)) [min y1 y2 + 1 .. max y1 y2 - 1])
                else if y1 = y2 then
                  blank_path (squares s) (map (\<lambda>i. (i, y1)) [min x1 x2 + 1 .. max x1 x2 - 1])
                else Inr True)
             else Inr True)
      in case straight of
           Inl e \<Rightarrow> Inl e
         | Inr ok \<Rightarrow>
            if \<not> ok then Inr False
            else if piece = Bishop \<or> piece = Queen then
              (if y1 < y2 then
                 (if x1 < x2 then
                    blank_path (squares s) (map (\<lambda>x. (x, y1 + (x - x1))) [x1 + 1 .. x2 - 1])
                  else if x1 > x2 then
                    blank_path (squares s) (map (\<lambda>x. (x, y1 + (x1 - x))) (rev [x2 + 1 .. x1 - 1]))
                  else Inr True)
               else if y1 > y2 then
                 (if x1 < x2 then
                    blank_path (squares s) (map (\<lambda>x. (x, y1 - (x - x1))) [x1 + 1 .. x2 - 1])
                  else if x1 > x2 then
                    blank_path (squares s) (map (\<lambda>x. (x, y1 - (x1 - x))) (rev [x2 + 1 .. x1 - 1]))
                  else Inr True)
               else Inr True)
            else Inr True)"

definition castle :: "board \<Rightarrow> bool" where
  "castle s = False"

text \<open>
  \<open>allowed_piece_move\<close>. The source is a sequence of \<open>if\<close> blocks, one per piece image;
  the images are pairwise different, so at most one block applies and a block that does
  not return \<open>True\<close> falls through to the final \<open>return False\<close>.
\<close>

definition allowed_piece_move :: "board \<Rightarrow> error + bool" where
  "allowed_piece_move s =
     (let img = squares s (sq1_button s); img2 = squares s (sq2_button s);
          x1 = fst (sq1 s); y1 = snd (sq1 s); x2 = fst (sq2 s); y2 = snd (sq2 s)
      in
      if img = Blank then Inr False
      else if img = Img White Bishop \<or> img = Img Black Bishop then
        (case clear_path s Bishop of
           Inl e \<Rightarrow> Inl e
         | Inr ok \<Rightarrow> Inr (ok \<and> \<bar>y1 - y2\<bar> = \<bar>x1 - x2\<bar>))
      else if img = Img White Knight \<or> img = Img Black Knight then
        Inr ((\<bar>y1 - y2\<bar> = 2 \<and> \<bar>x1 - x2\<bar> = 1) \<or> (\<bar>y1 - y2\<bar> = 1 \<and> \<bar>x1 - x2\<bar> = 2))
      else if img = Img White King \<or> img = Img Black King then
        Inr ((\<bar>y1 - y2\<bar> < 2 \<and> \<bar>x1 - x2\<bar> < 2) \<or> castle s)
      else if img = Img White Pawn then
        Inr ((y1 = 2 \<and> (y2 = 3 \<or> y2 = 4) \<and> x1 = x2 \<and> img2 = Blank
                \<and> (if y2 = 4 then squares s (x1, 3) = Blank else True))
             \<or> (y2 = y1 + 1 \<and> x1 = x2 \<and> img2 = Blank)
             \<or> (y2 = y1 + 1 \<and> \<bar>x1 - x2\<bar> = 1 \<and> img2 \<in> set black_pieces))
      else if img = Img Black Pawn then
        Inr ((y1 = 7 \<and> (y2 = 6 \<or> y2 = 5) \<and> x1 = x2 \<and> img2 = Blank
                \<and> (if y2 = 5 then squares s (x1, 6) = Blank else True))
             \<or> (y2 = y1 - 1 \<and> x1 = x2 \<and> img2 = Blank)
             \<or> (y2 = y1 - 1 \<and> \<bar>x1 - x2\<bar> = 1 \<and> img2 \<in> set white_pieces))
      else if img = Img White Queen \<or> img = Img Black Queen then
        (case clear_path s Queen of
           Inl e \<Rightarrow> Inl e
         | Inr ok \<Rightarrow> Inr (ok \<and> (y1 = y2 \<or> x1 = x2 \<or> \<bar>y1 - y2\<bar> = \<bar>x1 - x2\<bar>)))
      else if img = Img White Rook \<or> img = Img Black Rook then
        (if y1 = y2 \<or> x1 = x2 then clear_path s Rook else Inr False)
      else Inr False)"

text \<open>
  Every caller outside \<open>in_check\<close> points the two cursors at a pair of squares before it
  asks \<open>allowed_piece_move\<close> (\<open>sq1\<close> with \<open>sq1_button\<close>, \<open>sq2\<close> with \<open>sq2_button\<close>).
\<close>

definition with_move :: "board \<Rightarrow> square \<Rightarrow> square \<Rightarrow> board" where
  "with_move s a b = s\<lparr>sq1 := a, sq1_button := a, sq2 := b, sq2_button := b\<rparr>"

section \<open>Check detection\<close>

definition find_king :: "board \<Rightarrow> image \<Rightarrow> square option" where
  "find_king s king_img = find (\<lambda>square. squares s square = king_img) all_squares"

text \<open>The \<open>for key in self.squares\<close> loop of \<open>in_check\<close>; the state it returns has the cursor
  \<open>sq1\<close> where the loop stopped.\<close>

fun scan_attackers :: "image list \<Rightarrow> square list \<Rightarrow> board \<Rightarrow> error + bool \<times> board" where
  "scan_attackers enemy [] s = Inr (False, s)"
| "scan_attackers enemy (key # keys) s =
     (let s' = s\<lparr>sq1 := key, sq1_button := key\<rparr> in
      if squares s' (sq1_button s') \<in> set enemy then
        (case allowed_piece_move s' of
           Inl e \<Rightarrow> Inl e
         | Inr a \<Rightarrow> if a then Inr (True, s') else scan_attackers enemy keys s')
      else scan_attackers enemy keys s')"

definition pieces_of :: "color \<Rightarrow> image list" where
  "pieces_of c = (case c of White \<Rightarrow> white_pieces | Black \<Rightarrow> black_pieces)"

definition other :: "color \<Rightarrow> color" where
  "other c = (case c of White \<Rightarrow> Black | Black \<Rightarrow> White)"

text \<open>
  \<open>in_check\<close> looks at the king of \<open>self.piece_color\<close>. It sets \<open>sq2\<close> to the king's square
  but leaves \<open>sq2_button\<close> alone, and it restores the cursors only on the way to
  \<open>return False\<close>. When no king is found \<open>sq2\<close> is \<open>None\<close>, and \<open>allowed_piece_move\<close> raises
  \<open>TypeError\<close> for the first enemy piece the loop meets, whatever its kind (each block
  subscripts \<open>self.sq2\<close> before it can return).
\<close>

definition in_check :: "board \<Rightarrow> error + bool \<times> board" where
  "in_check s =
     (case piece_color s of
        None \<Rightarrow> Inr (False, s)
      | Some c \<Rightarrow>
         (case find_king s (Img c King) of
            None \<Rightarrow>
              if \<exists>key \<in> set all_squares. squares s key \<in> set (pieces_of (other c))
              then Inl TypeError else Inr (False, s)
          | Some k \<Rightarrow>
             (case scan_attackers (pieces_of (other c)) all_squares (s\<lparr>sq2 := k\<rparr>) of
                Inl e \<Rightarrow> Inl e
              | Inr (a, s') \<Rightarrow>
                 if a then Inr (True, s')
                 else Inr (False, s'\<lparr>sq1 := sq1 s, sq1_button := sq1_button s,
                                     sq2 := sq2 s, sq2_button := sq2_button s\<rparr>))))"

section \<open>Clicks\<close>

definition clear_highlights :: "board \<Rightarrow> board" where
  "clear_highlights s = s\<lparr>highlighted_squares := []\<rparr>"

text \<open>The loop \<open>for sq in self.squares\<close> that collects the squares \<open>sq\<close> with
  \<open>allowed_piece_move() and not friendly_fire()\<close> after pointing \<open>sq2\<close> at \<open>sq\<close>.\<close>

fun collect_targets :: "square list \<Rightarrow> board \<Rightarrow> error + square list" where
  "collect_targets [] s = Inr []"
| "collect_targets (sq # sqs) s =
     (let s' = s\<lparr>sq2 := sq, sq2_button := sq\<rparr> in
      case allowed_piece_move s' of
        Inl e \<Rightarrow> Inl e
      | Inr a \<Rightarrow>
         (case collect_targets sqs s of
            Inl e \<Rightarrow> Inl e
          | Inr rest \<Rightarrow> Inr (if a \<and> \<not> friendly_fire s' then sq # rest else rest)))"

definition highlight_legal_moves :: "board \<Rightarrow> error + board" where
  "highlight_legal_moves s0 =
     (let s = (clear_highlights s0)\<lparr>sq1 := sq1_button s0\<rparr> in
      case collect_targets all_squares s of
        Inl e \<Rightarrow> Inl e
      | Inr hs \<Rightarrow> Inr (s\<lparr>highlighted_squares := hs,
                         sq2 := last all_squares, sq2_button := last all_squares\<rparr>))"

definition get_piece_name :: "image \<Rightarrow> string" where
  "get_piece_name img =
     (case img of
        Blank \<Rightarrow> ''Unknown''
      | Img c k \<Rightarrow>
          (case c of White \<Rightarrow> ''White '' | Black \<Rightarrow> ''Black '') @
          (case k of King \<Rightarrow> ''K'' | Queen \<Rightarrow> ''Q'' | Rook \<Rightarrow> ''R''
                   | Bishop \<Rightarrow> ''B'' | Knight \<Rightarrow> ''N'' | Pawn \<Rightarrow> ''P''))"

text \<open>\<open>promotion_menu(color)\<close> opens a window and returns at once; the window stays open
  until one of its buttons is pressed.\<close>

definition promotion_menu :: "color option \<Rightarrow> board \<Rightarrow> board" where
  "promotion_menu c s = s\<lparr>promo_windows := promo_windows s @ [c]\<rparr>"

text \<open>The buttons of a promotion window: the text and the image handed to \<open>return_piece\<close>.
  A window opened for a colour that is neither "white" nor "black" has no button.\<close>

definition promotion_buttons :: "color option \<Rightarrow> (string \<times> image) list" where
  "promotion_buttons c =
     (case c of
        None \<Rightarrow> []
      | Some col \<Rightarrow> [(''Knight'', Img col Knight), (''Bishop'', Img col Bishop),
                     (''Rook'', Img col Rook), (''Queen'', Img col Queen)])"

definition return_piece :: "image \<Rightarrow> board \<Rightarrow> board" where
  "return_piece piece_img s = s\<lparr>squares := (squares s)(sq2 s := piece_img)\<rparr>"

text \<open>Pressing button \<open>j\<close> of the open promotion window \<open>w\<close>: \<open>return_piece\<close>, then the
  window is destroyed.\<close>

definition promo_click :: "nat \<Rightarrow> nat \<Rightarrow> board \<Rightarrow> board" where
  "promo_click w j s =
     (if w < length (promo_windows s) \<and> j < length (promotion_buttons (promo_windows s ! w))
      then (return_piece (snd (promotion_buttons (promo_windows s ! w) ! j)) s)
             \<lparr>promo_windows := take w (promo_windows s) @ drop (Suc w) (promo_windows s)\<rparr>
      else s)"

text \<open>
  The first click (\<open>buttons_pressed == 0\<close>) after \<open>piece_color\<close> is set. The loop that
  builds the window title repeats the tests of \<open>highlight_legal_moves\<close> on the same
  fields and assigns the same cursors, so it is not repeated here.
\<close>

definition first_click :: "square \<Rightarrow> board \<Rightarrow> error + board" where
  "first_click button s =
     highlight_legal_moves (s\<lparr>sq1 := button, sq1_button := button, buttons_pressed := 1\<rparr>)"

text \<open>The state updates of the commit branch (lines 143 to 168), on the state \<open>t\<close> that
  \<open>in_check\<close> returned.\<close>

definition commit :: "square \<Rightarrow> image \<Rightarrow> square \<Rightarrow> board \<Rightarrow> board" where
  "commit prev_sq1 prev_sq1_button_piece prev_sq2 t =
     (let t1 = t\<lparr>
            wk_moved := (if prev_sq1_button_piece = Img White King then True else wk_moved t),
            bk_moved := (if prev_sq1_button_piece = Img Black King then True else bk_moved t),
            wr1_moved := (if prev_sq1_button_piece = Img White Rook \<and> prev_sq1 = (0, 1)
                          then True else wr1_moved t),
            wr2_moved := (if prev_sq1_button_piece = Img White Rook \<and> prev_sq1 = (7, 1)
                          then True else wr2_moved t),
            br1_moved := (if prev_sq1_button_piece = Img Black Rook \<and> prev_sq1 = (0, 8)
                          then True else br1_moved t),
            br2_moved := (if prev_sq1_button_piece = Img Black Rook \<and> prev_sq1 = (7, 8)
                          then True else br2_moved t),
            buttons_pressed := 0,
            turns := turns t + 1,
            move_history := move_history t @
               [(prev_sq1, prev_sq2, get_piece_name prev_sq1_button_piece)]\<rparr>
      in if (squares t1 (sq2_button t1) = Img White Pawn \<and> snd prev_sq2 = 8)
            \<or> (squares t1 (sq2_button t1) = Img Black Pawn \<and> snd prev_sq2 = 1)
         then promotion_menu (piece_color t1) t1 else t1)"

text \<open>The lines after the move block (170 to 174).\<close>

definition reset_selection :: "board \<Rightarrow> board" where
  "reset_selection s = s\<lparr>castled := False, highlighted_squares := [], piece_color := None\<rparr>"

definition second_click :: "square \<Rightarrow> board \<Rightarrow> error + board" where
  "second_click button s0 =
     (let s = s0\<lparr>sq2 := button, sq2_button := button\<rparr> in
      if sq2 s = sq1 s then Inr (s\<lparr>buttons_pressed := 0\<rparr>)
      else
        case allowed_piece_move s of
          Inl e \<Rightarrow> Inl e
        | Inr a \<Rightarrow>
           if a \<and> \<not> friendly_fire s then
             (let prev_sq1 = sq1 s;
                  prev_sq1_button_piece = squares s (sq1_button s);
                  prev_sq2 = sq2 s;
                  prev_sq2_button_piece = squares s (sq2_button s);
                  moved = s\<lparr>squares := ((squares s)(sq2 s := squares s (sq1_button s)))
                                          (sq1 s := Blank)\<rparr>
              in case in_check moved of
                   Inl e \<Rightarrow> Inl e
                 | Inr (chk, t) \<Rightarrow>
                    if chk \<and> \<not> castled t then
                      Inr (t\<lparr>squares := ((squares t)(prev_sq2 := prev_sq2_button_piece))
                                          (prev_sq1 := prev_sq1_button_piece),
                             buttons_pressed := 0\<rparr>)
                    else
                      Inr (reset_selection (commit prev_sq1 prev_sq1_button_piece prev_sq2 t)))
           else Inr (reset_selection s))"

definition select_piece :: "square \<Rightarrow> board \<Rightarrow> error + board" where
  "select_piece button s0 =
     (let s = clear_highlights s0 in
      if buttons_pressed s = 0 then
        (if squares s button \<in> set white_pieces \<and> turns s mod 2 = 0 then
           first_click button (s\<lparr>piece_color := Some White\<rparr>)
         else if squares s button \<in> set black_pieces \<and> turns s mod 2 = 1 then
           first_click button (s\<lparr>piece_color := Some Black\<rparr>)
         else Inr s)
      else if buttons_pressed s = 1 then second_click button s
      else Inr (s\<lparr>buttons_pressed := 0\<rparr>))"

section \<open>Random move\<close>

text \<open>The outer loop of \<open>random_ai_move\<close>; it returns the list \<open>movable\<close> and the state with
  the cursors where the loops left them.\<close>

fun collect_movable ::
  "image list \<Rightarrow> square list \<Rightarrow> board \<Rightarrow> error + (square \<times> square) list \<times> board" where
  "collect_movable pieces [] s = Inr ([], s)"
| "collect_movable pieces (sq # sqs) s =
     (if squares s sq \<in> set pieces then
        (let s1 = s\<lparr>sq1 := sq, sq1_button := sq\<rparr> in
         case collect_targets all_squares s1 of
           Inl e \<Rightarrow> Inl e
         | Inr ts \<Rightarrow>
            (case collect_movable pieces sqs
                    (s1\<lparr>sq2 := last all_squares, sq2_button := last all_squares\<rparr>) of
               Inl e \<Rightarrow> Inl e
             | Inr (ms, s') \<Rightarrow> Inr (map (Pair sq) ts @ ms, s')))
      else collect_movable pieces sqs s)"

text \<open>\<open>random_ai_move\<close>; the number \<open>n\<close> stands for the draw of \<open>random.choice\<close>, taken
  modulo the length of \<open>movable\<close>.\<close>

definition random_ai_move :: "nat \<Rightarrow> board \<Rightarrow> error + board" where
  "random_ai_move n s =
     (let enemy_color = (if turns s mod 2 = 1 then Black else White);
          pieces = (if enemy_color = Black then black_pieces else white_pieces)
      in case collect_movable pieces all_squares s of
           Inl e \<Rightarrow> Inl e
         | Inr (movable, s1) \<Rightarrow>
            if movable \<noteq> [] then
              (let move = movable ! (n mod length movable);
                   s2 = s1\<lparr>sq1 := fst move, sq2 := snd move,
                           sq1_button := fst move, sq2_button := snd move\<rparr>
               in select_piece (sq2_button s2) s2)
            else Inr s1)"

section \<open>Runs\<close>

datatype event = Click square | PromoClick nat nat | AiMove nat | Restart

fun step :: "event \<Rightarrow> board \<Rightarrow> error + board" where
  "step (Click button) s = select_piece button s"
| "step (PromoClick w j) s = Inr (promo_click w j s)"
| "step (AiMove n) s = random_ai_move n s"
| "step Restart s = Inr (restart_game s)"

fun run :: "event list \<Rightarrow> board \<Rightarrow> error + board" where
  "run [] s = Inr s"
| "run (e # es) s = (case step e s of Inl err \<Rightarrow> Inl err | Inr s' \<Rightarrow> run es s')"

section \<open>Predicates used to state the properties\<close>

text \<open>A square \<open>q\<close> strictly between \<open>a\<close> and \<open>b\<close> on the file or the rank they share.\<close>

definition strictly_between :: "square \<Rightarrow> square \<Rightarrow> square \<Rightarrow> bool" where
  "strictly_between a b q =
     ((fst a = fst b \<and> fst q = fst a
         \<and> min (snd a) (snd b) < snd q \<and> snd q < max (snd a) (snd b))
      \<or> (snd a = snd b \<and> snd q = snd a
         \<and> min (fst a) (fst b) < fst q \<and> fst q < max (fst a) (fst b)))"

text \<open>The three white pawn moves of the specification, from \<open>a\<close> to \<open>b\<close>.\<close>

definition single_push :: "board \<Rightarrow> square \<Rightarrow> square \<Rightarrow> bool" where
  "single_push s a b = (fst b = fst a \<and> snd b = snd a + 1 \<and> squares s b = Blank)"

definition double_push :: "board \<Rightarrow> square \<Rightarrow> square \<Rightarrow> bool" where
  "double_push s a b =
     (snd a = 2 \<and> snd b = 4 \<and> fst b = fst a
      \<and> squares s (fst a, 3) = Blank \<and> squares s b = Blank)"

definition diagonal_capture :: "board \<Rightarrow> square \<Rightarrow> square \<Rightarrow> bool" where
  "diagonal_capture s a b =
     (snd b = snd a + 1 \<and> \<bar>fst a - fst b\<bar> = 1 \<and> squares s b \<in> set black_pieces)"

text \<open>What C2 compares before and after an attempt: the contents of the 64 squares, the six
  castling flags and the move history.\<close>

definition position_unchanged :: "board \<Rightarrow> board \<Rightarrow> bool" where
  "position_unchanged s s' =
     (squares s' = squares s
      \<and> wk_moved s' = wk_moved s \<and> bk_moved s' = bk_moved s
      \<and> wr1_moved s' = wr1_moved s \<and> wr2_moved s' = wr2_moved s
      \<and> br1_moved s' = br1_moved s \<and> br2_moved s' = br2_moved s
      \<and> move_history s' = move_history s)"

text \<open>A short game used as a concrete input: e2 to e4, a7 to a6, the queen d1 to h5, and
  then Black selects the pawn on f7.\<close>

definition queen_h5_line :: "event list" where
  "queen_h5_line = [Click (4, 2), Click (4, 4), Click (0, 7), Click (0, 6), Click (3, 1),
                    Click (7, 5), Click (5, 7)]"

section \<open>Path clearance\<close>

lemma blank_path_on_board:
  "\<forall>k \<in> set ks. on_board k \<Longrightarrow> blank_path sqs ks = Inr (\<forall>k \<in> set ks. sqs k = Blank)"
  by (induction ks) auto

lemma clear_path_rook:
  assumes "on_board (sq1 s)" and "on_board (sq2 s)"
    and "fst (sq1 s) = fst (sq2 s) \<or> snd (sq1 s) = snd (sq2 s)"
  shows "clear_path s Rook =
           Inr (\<forall>q. strictly_between (sq1 s) (sq2 s) q \<longrightarrow> squares s q = Blank)"
proof (cases "fst (sq1 s) = fst (sq2 s)")
  case True
  let ?ks = "map (\<lambda>i. (fst (sq1 s), i))
               [min (snd (sq1 s)) (snd (sq2 s)) + 1 .. max (snd (sq1 s)) (snd (sq2 s)) - 1]"
  have ob: "\<forall>k \<in> set ?ks. on_board k"
    using assms(1,2) by (auto simp: on_board_def)
  have "(\<forall>k \<in> set ?ks. squares s k = Blank)
          = (\<forall>q. strictly_between (sq1 s) (sq2 s) q \<longrightarrow> squares s q = Blank)"
    using True by (auto simp: strictly_between_def)
  then show ?thesis
    using True blank_path_on_board[OF ob, of "squares s"] by (simp add: clear_path_def Let_def)
next
  case False
  with assms(3) have eq: "snd (sq1 s) = snd (sq2 s)" by simp
  let ?ks = "map (\<lambda>i. (i, snd (sq1 s)))
               [min (fst (sq1 s)) (fst (sq2 s)) + 1 .. max (fst (sq1 s)) (fst (sq2 s)) - 1]"
  have ob: "\<forall>k \<in> set ?ks. on_board k"
    using assms(1,2) by (auto simp: on_board_def)
  have "(\<forall>k \<in> set ?ks. squares s k = Blank)
          = (\<forall>q. strictly_between (sq1 s) (sq2 s) q \<longrightarrow> squares s q = Blank)"
    using False eq by (auto simp: strictly_between_def)
  then show ?thesis
    using False eq blank_path_on_board[OF ob, of "squares s"]
    by (simp add: clear_path_def Let_def)
qed

section \<open>Rook moves (C6)\<close>

text \<open>
  C6, as the specification states it: a rook move is pseudo-legal iff the two squares
  share a file or a rank, are not the same square, and every square strictly between
  them is empty; in particular a rook may not "move" to its own square. The code has no
  same-square test in \<open>allowed_piece_move\<close>: for the rook on a1 in the starting position
  the check from a1 to a1 answers \<open>True\<close>. (\<open>select_piece\<close> cancels the selection when the
  second click is on the selected square, before it asks \<open>allowed_piece_move\<close>.)
\<close>

theorem rook_same_square_allowed:
  "squares init_board (0, 1) = Img White Rook
   \<and> allowed_piece_move (with_move init_board (0, 1) (0, 1)) = Inr True"
  by code_simp

text \<open>
  C6, amended: for a rook of either colour on \<open>a\<close>, \<open>allowed_piece_move\<close> from \<open>a\<close> to \<open>b\<close>
  returns true iff \<open>a\<close> and \<open>b\<close> share a file or a rank and every square strictly between
  them is empty. The case \<open>a = b\<close> is included and answers true.
\<close>

theorem rook_allowed_iff:
  assumes "on_board a" and "on_board b" and "squares s a = Img c Rook"
  shows "allowed_piece_move (with_move s a b) =
           Inr ((fst a = fst b \<or> snd a = snd b)
                \<and> (\<forall>q. strictly_between a b q \<longrightarrow> squares s q = Blank))"
proof -
  let ?m = "with_move s a b"
  have f: "sq1 ?m = a" "sq2 ?m = b" "sq1_button ?m = a" "sq2_button ?m = b"
    "squares ?m = squares s"
    by (simp_all add: with_move_def)
  show ?thesis
  proof (cases "fst a = fst b \<or> snd a = snd b")
    case True
    then have "clear_path ?m Rook =
                 Inr (\<forall>q. strictly_between a b q \<longrightarrow> squares s q = Blank)"
      using clear_path_rook[of ?m] assms(1,2) f by simp
    then show ?thesis using True assms(3) f
      by (cases c) (auto simp: allowed_piece_move_def Let_def)
  next
    case False
    then show ?thesis using assms(3) f
      by (cases c) (auto simp: allowed_piece_move_def Let_def)
  qed
qed

theorem rook_allowed_iff_witness:
  "on_board (0, 1) \<and> on_board (0, 3) \<and> squares init_board (0, 1) = Img White Rook
   \<and> allowed_piece_move (with_move init_board (0, 1) (0, 3)) = Inr False
   \<and> allowed_piece_move (with_move init_board (0, 1) (0, 1)) = Inr True"
proof -
  have a: "on_board (0, 1)" and b: "on_board (0, 3)"
    by (simp_all add: on_board_def)
  have r: "squares init_board (0, 1) = Img White Rook"
    by (simp add: init_board_def set_pieces_def back_rank_def)
  have "strictly_between (0, 1) (0, 3) (0, 2)"
    by (simp add: strictly_between_def)
  moreover have "squares init_board (0, 2) \<noteq> Blank"
    by (simp add: init_board_def set_pieces_def)
  ultimately have blocked:
    "\<not> (\<forall>q. strictly_between (0, 1) (0, 3) q \<longrightarrow> squares init_board q = Blank)"
    by blast
  have free: "\<forall>q. strictly_between (0, 1) (0, 1) q \<longrightarrow> squares init_board q = Blank"
    by (auto simp: strictly_between_def)
  from rook_allowed_iff[OF a b r] blocked
  have "allowed_piece_move (with_move init_board (0, 1) (0, 3)) = Inr False"
    by simp
  moreover from rook_allowed_iff[OF a a r] free
  have "allowed_piece_move (with_move init_board (0, 1) (0, 1)) = Inr True"
    by simp
  ultimately show ?thesis using a b r by simp
qed

section \<open>White pawn moves (C7)\<close>

text \<open>
  C7: for a White pawn on \<open>a\<close>, \<open>allowed_piece_move\<close> from \<open>a\<close> to \<open>b\<close> returns true iff
  exactly one of the three holds: a single push (same file, one rank ahead, \<open>b\<close> empty),
  a double push (from rank 2 to rank 4 on the same file, the rank-3 and rank-4 squares
  empty), a diagonal capture (one rank ahead on an adjacent file, \<open>b\<close> holds a Black
  piece). Hence a push onto an occupied square is never allowed.
\<close>

theorem white_pawn_allowed_iff:
  assumes "squares s a = Img White Pawn"
  shows "allowed_piece_move (with_move s a b) =
           Inr ((single_push s a b \<and> \<not> double_push s a b \<and> \<not> diagonal_capture s a b)
              \<or> (\<not> single_push s a b \<and> double_push s a b \<and> \<not> diagonal_capture s a b)
              \<or> (\<not> single_push s a b \<and> \<not> double_push s a b \<and> diagonal_capture s a b))"
  using assms
  by (auto simp: allowed_piece_move_def with_move_def Let_def single_push_def
        double_push_def diagonal_capture_def)

theorem white_pawn_allowed_iff_witness:
  "squares init_board (4, 2) = Img White Pawn
   \<and> allowed_piece_move (with_move init_board (4, 2) (4, 4)) = Inr True
   \<and> allowed_piece_move (with_move init_board (4, 2) (4, 5)) = Inr False"
proof -
  have p: "squares init_board (4, 2) = Img White Pawn"
    by (simp add: init_board_def set_pieces_def)
  have d: "double_push init_board (4, 2) (4, 4)" "\<not> single_push init_board (4, 2) (4, 4)"
    "\<not> diagonal_capture init_board (4, 2) (4, 4)"
    by (simp_all add: double_push_def single_push_def diagonal_capture_def
          init_board_def set_pieces_def)
  have n: "\<not> double_push init_board (4, 2) (4, 5)" "\<not> single_push init_board (4, 2) (4, 5)"
    "\<not> diagonal_capture init_board (4, 2) (4, 5)"
    by (simp_all add: double_push_def single_push_def diagonal_capture_def)
  from white_pawn_allowed_iff[OF p, of "(4, 4)"] d
  have "allowed_piece_move (with_move init_board (4, 2) (4, 4)) = Inr True" by simp
  moreover from white_pawn_allowed_iff[OF p, of "(4, 5)"] n
  have "allowed_piece_move (with_move init_board (4, 2) (4, 5)) = Inr False" by simp
  ultimately show ?thesis using p by simp
qed

section \<open>A rejected pattern keeps the selection (C3)\<close>

text \<open>
  C3 says that every rejected attempt returns the session to Idle. In the starting
  position, click e2 and then e5: the pattern is rejected, and the code leaves
  \<open>buttons_pressed\<close> at 1 with e2 still in \<open>sq1\<close> while it clears \<open>piece_color\<close>. The next
  click, on e4, is therefore taken as a second click and commits e2 to e4.
\<close>

theorem rejected_pattern_stays_selected:
  "(case run [Click (4, 2), Click (4, 5)] init_board of
      Inl e \<Rightarrow> False
    | Inr s \<Rightarrow> buttons_pressed s = 1 \<and> sq1 s = (4, 2) \<and> piece_color s = None
               \<and> turns s = 0 \<and> move_history s = []
               \<and> (case select_piece (4, 4) s of
                     Inl e \<Rightarrow> False
                   | Inr s' \<Rightarrow> turns s' = 1 \<and> squares s' (4, 4) = Img White Pawn
                               \<and> squares s' (4, 2) = Blank
                               \<and> move_history s' = [((4, 2), (4, 4), ''White P'')]))"
  by code_simp

section \<open>A committed move that leaves the mover in check (C1)\<close>

text \<open>
  C1 says that no committed move leaves the mover's own king attacked. From the starting
  position: e2 to e4, a7 to a6, the queen d1 to h5; then Black clicks f7, clicks f4 (a
  rejected pattern, which clears \<open>piece_color\<close> and keeps f7 selected) and clicks f6.
  With \<open>piece_color\<close> cleared \<open>in_check\<close> looks at neither king, so f7 to f6 is committed
  as the fourth move, and on the resulting board the Black king on e8 is attacked by
  the queen on h5.
\<close>

theorem committed_move_leaves_king_attacked:
  "(case run [Click (4, 2), Click (4, 4), Click (0, 7), Click (0, 6), Click (3, 1),
              Click (7, 5), Click (5, 7), Click (5, 4), Click (5, 6)] init_board of
      Inl e \<Rightarrow> False
    | Inr s \<Rightarrow> turns s = 4
               \<and> move_history s ! 3 = ((5, 7), (5, 6), ''Black P'')
               \<and> squares s (5, 6) = Img Black Pawn \<and> squares s (5, 7) = Blank
               \<and> squares s (4, 8) = Img Black King \<and> squares s (7, 5) = Img White Queen
               \<and> allowed_piece_move (with_move s (7, 5) (4, 8)) = Inr True
               \<and> map_sum id fst (in_check (s\<lparr>piece_color := Some Black\<rparr>)) = Inr True)"
  by code_simp

section \<open>Frame of a click (C2, C9)\<close>

text \<open>\<open>in_check\<close> writes nothing but the cursors, and restores them when it answers
  \<open>False\<close>.\<close>

lemma scan_attackers_frame:
  "scan_attackers enemy ks s = Inr (a, t) \<Longrightarrow> \<exists>k1 k2. t = s\<lparr>sq1 := k1, sq1_button := k2\<rparr>"
proof (induction ks arbitrary: s)
  case Nil
  then have "t = s" by simp
  then have "t = s\<lparr>sq1 := sq1 s, sq1_button := sq1_button s\<rparr>" by simp
  then show ?case by blast
next
  case (Cons k ks)
  let ?s' = "s\<lparr>sq1 := k, sq1_button := k\<rparr>"
  from Cons.prems consider "t = ?s'" | "scan_attackers enemy ks ?s' = Inr (a, t)"
    by (auto simp: Let_def split: if_splits sum.splits)
  then show ?case
  proof cases
    case 1
    then show ?thesis by blast
  next
    case 2
    from Cons.IH[OF 2] obtain k1 k2 where "t = ?s'\<lparr>sq1 := k1, sq1_button := k2\<rparr>" by blast
    then have "t = s\<lparr>sq1 := k1, sq1_button := k2\<rparr>" by simp
    then show ?thesis by blast
  qed
qed

lemma in_check_result:
  assumes "in_check s = Inr (a, t)"
  shows "(a \<and> (\<exists>k1 k2 k3. t = s\<lparr>sq1 := k1, sq1_button := k2, sq2 := k3\<rparr>)) \<or> (\<not> a \<and> t = s)"
proof (cases "piece_color s")
  case None
  with assms show ?thesis by (simp add: in_check_def)
next
  case (Some c)
  show ?thesis
  proof (cases "find_king s (Img c King)")
    case None
    with Some assms show ?thesis by (simp add: in_check_def split: if_splits)
  next
    case (Some k)
    with \<open>piece_color s = Some c\<close> assms obtain a' t' where
      sc: "scan_attackers (pieces_of (other c)) all_squares (s\<lparr>sq2 := k\<rparr>) = Inr (a', t')"
      and t: "t = (if a' then t' else t'\<lparr>sq1 := sq1 s, sq1_button := sq1_button s,
                                     sq2 := sq2 s, sq2_button := sq2_button s\<rparr>)"
      and a: "a = a'"
      by (auto simp: in_check_def split: sum.splits if_splits)
    from scan_attackers_frame[OF sc] obtain k1 k2 where t': "t' = s\<lparr>sq2 := k, sq1 := k1, sq1_button := k2\<rparr>"
      by blast
    show ?thesis
    proof (cases a')
      case True
      with t t' have "t = s\<lparr>sq1 := k1, sq1_button := k2, sq2 := k\<rparr>" by simp
      then show ?thesis using True a by blast
    next
      case False
      with t t' have "t = s" by simp
      then show ?thesis using False a by simp
    qed
  qed
qed

lemma first_click_unchanged:
  assumes "first_click b s = Inr s'"
  shows "position_unchanged s s' \<and> turns s' = turns s"
  using assms
  by (auto simp: first_click_def highlight_legal_moves_def clear_highlights_def Let_def
        position_unchanged_def split: sum.splits)

lemma commit_turns: "turns (reset_selection (commit a img b t)) = turns t + 1"
  by (simp add: reset_selection_def commit_def promotion_menu_def Let_def)

lemma commit_squares: "squares (reset_selection (commit a img b t)) = squares t"
  by (simp add: reset_selection_def commit_def promotion_menu_def Let_def)

lemma commit_history:
  "move_history (reset_selection (commit a img b t)) = move_history t @ [(a, b, get_piece_name img)]"
  by (simp add: reset_selection_def commit_def promotion_menu_def Let_def)


lemma second_click_same:
  "b = sq1 s \<Longrightarrow> second_click b s = Inr (s\<lparr>sq2 := b, sq2_button := b, buttons_pressed := 0\<rparr>)"
  by (simp add: second_click_def Let_def)

lemma second_click_error:
  "b \<noteq> sq1 s \<Longrightarrow> allowed_piece_move (s\<lparr>sq2 := b, sq2_button := b\<rparr>) = Inl e
     \<Longrightarrow> second_click b s = Inl e"
  by (simp add: second_click_def Let_def)

lemma second_click_rejected:
  "b \<noteq> sq1 s \<Longrightarrow> allowed_piece_move (s\<lparr>sq2 := b, sq2_button := b\<rparr>) = Inr a
     \<Longrightarrow> \<not> (a \<and> \<not> friendly_fire (s\<lparr>sq2 := b, sq2_button := b\<rparr>))
     \<Longrightarrow> second_click b s = Inr (reset_selection (s\<lparr>sq2 := b, sq2_button := b\<rparr>))"
  by (cases a) (simp_all add: second_click_def Let_def)

lemma second_click_move:
  "b \<noteq> sq1 s \<Longrightarrow> allowed_piece_move (s\<lparr>sq2 := b, sq2_button := b\<rparr>) = Inr True
     \<Longrightarrow> \<not> friendly_fire (s\<lparr>sq2 := b, sq2_button := b\<rparr>)
     \<Longrightarrow> second_click b s =
        (case in_check (s\<lparr>sq2 := b, sq2_button := b,
                          squares := ((squares s)(b := squares s (sq1_button s)))(sq1 s := Blank)\<rparr>) of
           Inl e \<Rightarrow> Inl e
         | Inr (chk, t) \<Rightarrow>
             if chk \<and> \<not> castled t then
               Inr (t\<lparr>squares := ((squares t)(b := squares s b))(sq1 s := squares s (sq1_button s)),
                      buttons_pressed := 0\<rparr>)
             else Inr (reset_selection (commit (sq1 s) (squares s (sq1_button s)) b t)))"
  by (simp add: second_click_def Let_def)

text \<open>What a second click can do: cancel, reject the pattern, reject for self-check, or
  commit.\<close>

lemma second_click_cases:
  assumes sc: "second_click b s = Inr s'" and eq: "sq1_button s = sq1 s"
  shows "(position_unchanged s s' \<and> turns s' = turns s)
         \<or> (b \<noteq> sq1 s \<and> turns s' = turns s + 1
            \<and> squares s' = ((squares s)(b := squares s (sq1 s)))(sq1 s := Blank)
            \<and> move_history s' = move_history s @ [(sq1 s, b, get_piece_name (squares s (sq1 s)))])"
proof (cases "b = sq1 s")
  case True
  from second_click_same[OF True] sc
  have "s' = s\<lparr>sq2 := b, sq2_button := b, buttons_pressed := 0\<rparr>" by simp
  then show ?thesis by (simp add: position_unchanged_def)
next
  case ne: False
  let ?s = "s\<lparr>sq2 := b, sq2_button := b\<rparr>"
  show ?thesis
  proof (cases "allowed_piece_move ?s")
    case (Inl e)
    from second_click_error[OF ne Inl] sc show ?thesis by simp
  next
    case (Inr a)
    show ?thesis
    proof (cases "a \<and> \<not> friendly_fire ?s")
      case False
      from second_click_rejected[OF ne Inr False] sc have "s' = reset_selection ?s" by simp
      then show ?thesis
        by (simp add: reset_selection_def position_unchanged_def)
    next
      case True
      let ?moved = "s\<lparr>sq2 := b, sq2_button := b,
                       squares := ((squares s)(b := squares s (sq1_button s)))(sq1 s := Blank)\<rparr>"
      from True Inr have al: "allowed_piece_move ?s = Inr True" and ff: "\<not> friendly_fire ?s"
        by simp_all
      note unf = second_click_move[OF ne al ff]
      show ?thesis
      proof (cases "in_check ?moved")
        case (Inl e)
        with unf sc show ?thesis by simp
      next
        case (Inr r)
        obtain chk t where r: "r = (chk, t)" by (cases r)
        from in_check_result[OF Inr[unfolded r]]
        have fr: "squares t = squares ?moved \<and> turns t = turns s
            \<and> move_history t = move_history s \<and> wk_moved t = wk_moved s \<and> bk_moved t = bk_moved s
            \<and> wr1_moved t = wr1_moved s \<and> wr2_moved t = wr2_moved s \<and> br1_moved t = br1_moved s
            \<and> br2_moved t = br2_moved s"
          by auto
        show ?thesis
        proof (cases "chk \<and> \<not> castled t")
          case True
          with unf sc Inr r
          have "s' = t\<lparr>squares := ((squares t)(b := squares s b))(sq1 s := squares s (sq1_button s)),
                        buttons_pressed := 0\<rparr>" by simp
          moreover have "((squares ?moved)(b := squares s b))(sq1 s := squares s (sq1 s)) = squares s"
            by (rule ext) simp
          ultimately show ?thesis using fr eq
            by (simp add: position_unchanged_def)
        next
          case False
          with unf sc Inr r
          have "s' = reset_selection (commit (sq1 s) (squares s (sq1_button s)) b t)" by auto
          then show ?thesis using fr ne eq
            by (simp add: commit_turns commit_squares commit_history)
        qed
      qed
    qed
  qed
qed

lemma select_piece_unfold:
  "select_piece b s =
     (if buttons_pressed s = 0 then
        (if squares s b \<in> set white_pieces \<and> turns s mod 2 = 0 then
           first_click b (clear_highlights s\<lparr>piece_color := Some White\<rparr>)
         else if squares s b \<in> set black_pieces \<and> turns s mod 2 = 1 then
           first_click b (clear_highlights s\<lparr>piece_color := Some Black\<rparr>)
         else Inr (clear_highlights s))
      else if buttons_pressed s = 1 then second_click b (clear_highlights s)
      else Inr (clear_highlights s\<lparr>buttons_pressed := 0\<rparr>))"
  by (simp add: select_piece_def Let_def clear_highlights_def)

lemma select_piece_cases:
  assumes sp: "select_piece b s = Inr s'" and eq: "sq1_button s = sq1 s"
  shows "(position_unchanged s s' \<and> turns s' = turns s)
         \<or> (buttons_pressed s = 1 \<and> b \<noteq> sq1 s \<and> turns s' = turns s + 1
            \<and> squares s' = ((squares s)(b := squares s (sq1 s)))(sq1 s := Blank)
            \<and> move_history s' = move_history s @ [(sq1 s, b, get_piece_name (squares s (sq1 s)))])"
proof -
  let ?c = "clear_highlights s"
  have pc: "turns ?c = turns s" "sq1 ?c = sq1 s" "sq1_button ?c = sq1_button s"
    "squares ?c = squares s" "move_history ?c = move_history s"
    "wk_moved ?c = wk_moved s" "bk_moved ?c = bk_moved s" "wr1_moved ?c = wr1_moved s"
    "wr2_moved ?c = wr2_moved s" "br1_moved ?c = br1_moved s" "br2_moved ?c = br2_moved s"
    by (simp_all add: clear_highlights_def)
  have pu: "position_unchanged s ?c \<and> turns ?c = turns s"
    by (simp add: position_unchanged_def clear_highlights_def)
  have first: "position_unchanged s s' \<and> turns s' = turns s"
    if "first_click b (?c\<lparr>piece_color := Some c\<rparr>) = Inr s'" for c
    using first_click_unchanged[OF that] pc by (simp add: position_unchanged_def)
  show ?thesis
  proof (cases "buttons_pressed s = 0")
    case zero: True
    show ?thesis
    proof (cases "squares s b \<in> set white_pieces \<and> turns s mod 2 = 0")
      case True
      with sp zero have "first_click b (?c\<lparr>piece_color := Some White\<rparr>) = Inr s'"
        by (simp add: select_piece_unfold)
      from first[OF this] show ?thesis by simp
    next
      case nw: False
      show ?thesis
      proof (cases "squares s b \<in> set black_pieces \<and> turns s mod 2 = 1")
        case True
        with sp zero nw have "first_click b (?c\<lparr>piece_color := Some Black\<rparr>) = Inr s'"
          by (simp add: select_piece_unfold)
        from first[OF this] show ?thesis by simp
      next
        case False
        with sp zero nw have "s' = ?c" by (simp add: select_piece_unfold)
        with pu show ?thesis by simp
      qed
    qed
  next
    case nz: False
    show ?thesis
    proof (cases "buttons_pressed s = 1")
      case True
      with sp have sc: "second_click b ?c = Inr s'" by (simp add: select_piece_unfold)
      have "sq1_button ?c = sq1 ?c" using eq pc by simp
      from second_click_cases[OF sc this] True pc show ?thesis
        by (simp add: position_unchanged_def)
    next
      case False
      with sp nz have "s' = ?c\<lparr>buttons_pressed := 0\<rparr>" by (simp add: select_piece_unfold)
      then show ?thesis by (simp add: position_unchanged_def clear_highlights_def)
    qed
  qed
qed


text \<open>
  C2: a move attempt that returns without committing (the half-move counter \<open>turns\<close> is
  unchanged) leaves the contents of all 64 squares, the six castling flags and the move
  history exactly as they were. This covers every path of \<open>select_piece\<close> that returns:
  a click on a piece of the wrong side or on an empty square, a cancelled selection, a
  rejected pattern, friendly fire, and the self-check rejection with its undo. The
  hypothesis \<open>sq1_button = sq1\<close> says that the selected button is the button of the
  selected square, as every assignment in the program makes it.
\<close>

theorem rejected_attempt_changes_nothing:
  assumes "select_piece b s = Inr s'" and "turns s' = turns s" and "sq1_button s = sq1 s"
  shows "position_unchanged s s'"
  using select_piece_cases[OF assms(1,3)] assms(2) by auto

theorem rejected_attempt_changes_nothing_witness:
  "(case run queen_h5_line init_board of
      Inl e \<Rightarrow> False
    | Inr s \<Rightarrow> sq1_button s = sq1 s
               \<and> (case select_piece (5, 6) s of
                     Inl e \<Rightarrow> False
                   | Inr s' \<Rightarrow> turns s' = turns s \<and> buttons_pressed s' = 0
                               \<and> position_unchanged s s'))"
proof -
  have ev: "(case run queen_h5_line init_board of
      Inl e \<Rightarrow> False
    | Inr s \<Rightarrow> sq1_button s = sq1 s
               \<and> (case select_piece (5, 6) s of
                     Inl e \<Rightarrow> False
                   | Inr s' \<Rightarrow> turns s' = turns s \<and> buttons_pressed s' = 0))"
    by code_simp
  then obtain s where r: "run queen_h5_line init_board = Inr s"
    by (cases "run queen_h5_line init_board") simp_all
  with ev have eq: "sq1_button s = sq1 s"
    and ev2: "(case select_piece (5, 6) s of
                     Inl e \<Rightarrow> False
                   | Inr s' \<Rightarrow> turns s' = turns s \<and> buttons_pressed s' = 0)"
    by simp_all
  then obtain s' where sp: "select_piece (5, 6) s = Inr s'"
    by (cases "select_piece (5, 6) s") simp_all
  with ev2 have t: "turns s' = turns s" and bp: "buttons_pressed s' = 0" by simp_all
  from rejected_attempt_changes_nothing[OF sp t eq] have "position_unchanged s s'" .
  with r eq sp t bp show ?thesis by simp
qed


text \<open>
  C9: a committed move from \<open>sq1\<close> to the clicked square \<open>b\<close> empties \<open>sq1\<close>, puts the piece
  that stood on \<open>sq1\<close> on \<open>b\<close> and leaves every other square as it was; the move is
  appended to the history. (A pawn that reaches the last rank is still a pawn when
  \<open>select_piece\<close> returns, so promotion moves are covered too.)
\<close>

theorem committed_move_frame:
  assumes "select_piece b s = Inr s'" and "turns s' \<noteq> turns s" and "sq1_button s = sq1 s"
  shows "b \<noteq> sq1 s \<and> squares s' = ((squares s)(b := squares s (sq1 s)))(sq1 s := Blank)
         \<and> move_history s' = move_history s @ [(sq1 s, b, get_piece_name (squares s (sq1 s)))]"
  using select_piece_cases[OF assms(1,3)] assms(2) by auto

theorem committed_move_frame_witness:
  "(case select_piece (4, 2) init_board of
      Inl e \<Rightarrow> False
    | Inr s \<Rightarrow> sq1_button s = sq1 s \<and> sq1 s = (4, 2)
               \<and> (case select_piece (4, 4) s of
                     Inl e \<Rightarrow> False
                   | Inr s' \<Rightarrow> turns s' \<noteq> turns s
                               \<and> squares s' = ((squares s)((4, 4) := squares s (4, 2)))((4, 2) := Blank)))"
proof -
  have ev: "(case select_piece (4, 2) init_board of
      Inl e \<Rightarrow> False
    | Inr s \<Rightarrow> sq1_button s = sq1 s \<and> sq1 s = (4, 2)
               \<and> (case select_piece (4, 4) s of
                     Inl e \<Rightarrow> False
                   | Inr s' \<Rightarrow> turns s' \<noteq> turns s))"
    by code_simp
  then obtain s where r: "select_piece (4, 2) init_board = Inr s"
    by (cases "select_piece (4, 2) init_board") simp_all
  with ev have eq: "sq1_button s = sq1 s" and s1: "sq1 s = (4, 2)"
    and ev2: "(case select_piece (4, 4) s of Inl e \<Rightarrow> False | Inr s' \<Rightarrow> turns s' \<noteq> turns s)"
    by simp_all
  then obtain s' where sp: "select_piece (4, 4) s = Inr s'"
    by (cases "select_piece (4, 4) s") simp_all
  with ev2 have t: "turns s' \<noteq> turns s" by simp
  from committed_move_frame[OF sp t eq] s1
  have "squares s' = ((squares s)((4, 4) := squares s (4, 2)))((4, 2) := Blank)" by simp
  with r eq s1 sp t show ?thesis by simp
qed


end
